theory Spec2Isabelle
  imports Main
begin

section \<open>Strings as JavaScript sees them\<close>

text \<open>
  A string is a list of 8-bit characters, read as the code units \<open>0\<close> to \<open>255\<close> of a
  JavaScript string. The white space that \<^verbatim>\<open>String.prototype.trim\<close> and the numeric
  conversions skip is, among these, tab, line feed, vertical tab, form feed, carriage
  return, space and the no-break space \<open>0xA0\<close>; the white space of the language standard
  above \<open>255\<close> is outside the character type used here.
\<close>

definition dquote :: char where
  "dquote = CHR 0x22"

definition is_space :: "char \<Rightarrow> bool" where
  "is_space c = (c \<in> set [CHR 0x09, CHR 0x0A, CHR 0x0B, CHR 0x0C, CHR 0x0D, CHR 0x20, CHR 0xA0])"

definition trim :: "string \<Rightarrow> string" where
  "trim s = rev (dropWhile is_space (rev (dropWhile is_space s)))"

text \<open>\<^verbatim>\<open>s.split(sep)\<close> for a one-character separator: never the empty list.\<close>

fun split_on :: "char \<Rightarrow> string \<Rightarrow> string \<Rightarrow> string list" where
  "split_on sep cur [] = [cur]"
| "split_on sep cur (c # cs) =
     (if c = sep then cur # split_on sep [] cs else split_on sep (cur @ [c]) cs)"

text \<open>\<^verbatim>\<open>xs.join(sep)\<close>.\<close>

fun join :: "string \<Rightarrow> string list \<Rightarrow> string" where
  "join sep [] = []"
| "join sep [x] = x"
| "join sep (x # y # ys) = x @ sep @ join sep (y # ys)"

text \<open>Decimal rendering of a number, as a template literal prints it.\<close>

definition digit_char :: "nat \<Rightarrow> char" where
  "digit_char d = char_of (of_char CHR ''0'' + d)"

fun string_of_nat :: "nat \<Rightarrow> string" where
  "string_of_nat n =
     (let last_digit = [digit_char (n mod 10)]
      in if 10 \<le> n then string_of_nat (n div 10) @ last_digit else last_digit)"

declare string_of_nat.simps [simp del]

section \<open>The numeric conversions \<^verbatim>\<open>isNaN\<close> and \<^verbatim>\<open>parseInt\<close>\<close>

text \<open>
  The value of a character as a digit in radix \<open>r\<close> (digits, then letters of either case).
\<close>

definition radix_digit :: "nat \<Rightarrow> char \<Rightarrow> nat option" where
  "radix_digit r c =
     (let n = (of_char c :: nat);
          d = (if 48 \<le> n \<and> n \<le> 57 then Some (n - 48)
               else if 97 \<le> n \<and> n \<le> 122 then Some (n - 87)
               else if 65 \<le> n \<and> n \<le> 90 then Some (n - 55)
               else None)
      in case d of None \<Rightarrow> None | Some v \<Rightarrow> if v < r then Some v else None)"

definition is_digit :: "char \<Rightarrow> bool" where
  "is_digit c = (radix_digit 10 c \<noteq> None)"

definition all_digits :: "nat \<Rightarrow> string \<Rightarrow> bool" where
  "all_digits r s = (s \<noteq> [] \<and> list_all (\<lambda>c. radix_digit r c \<noteq> None) s)"

definition digits_value :: "nat \<Rightarrow> string \<Rightarrow> nat" where
  "digits_value r s =
     foldl (\<lambda>a c. a * r + (case radix_digit r c of Some v \<Rightarrow> v | None \<Rightarrow> 0)) 0 s"

text \<open>
  \<^verbatim>\<open>isNaN(s)\<close> of a string converts it with \<^verbatim>\<open>Number\<close>, which yields NaN exactly when the
  trimmed string is neither empty nor a numeric literal of the grammar below (signed
  decimal literals with fraction and exponent, \<^verbatim>\<open>Infinity\<close>, and unsigned binary, octal
  and hexadecimal integers).
\<close>

fun signed_integer :: "string \<Rightarrow> bool" where
  "signed_integer [] = False"
| "signed_integer (c # cs) =
     (if c = CHR ''+'' \<or> c = CHR ''-'' then all_digits 10 cs else all_digits 10 (c # cs))"

fun exponent_part_opt :: "string \<Rightarrow> bool" where
  "exponent_part_opt [] = True"
| "exponent_part_opt (c # cs) = ((c = CHR ''e'' \<or> c = CHR ''E'') \<and> signed_integer cs)"

definition str_unsigned_decimal :: "string \<Rightarrow> bool" where
  "str_unsigned_decimal s =
     (s = ''Infinity'' \<or>
      (let ip = takeWhile is_digit s; r = dropWhile is_digit s in
       case r of
         [] \<Rightarrow> ip \<noteq> []
       | c # r' \<Rightarrow>
           if c = CHR ''.'' then
             (let fp = takeWhile is_digit r'; r'' = dropWhile is_digit r' in
              (ip \<noteq> [] \<or> fp \<noteq> []) \<and> exponent_part_opt r'')
           else ip \<noteq> [] \<and> exponent_part_opt r))"

fun str_decimal_literal :: "string \<Rightarrow> bool" where
  "str_decimal_literal [] = False"
| "str_decimal_literal (c # cs) =
     (if c = CHR ''+'' \<or> c = CHR ''-'' then str_unsigned_decimal cs
      else str_unsigned_decimal (c # cs))"

fun non_decimal_literal :: "string \<Rightarrow> bool" where
  "non_decimal_literal (z # p # ds) =
     (z = CHR ''0'' \<and>
      (((p = CHR ''x'' \<or> p = CHR ''X'') \<and> all_digits 16 ds) \<or>
       ((p = CHR ''o'' \<or> p = CHR ''O'') \<and> all_digits 8 ds) \<or>
       ((p = CHR ''b'' \<or> p = CHR ''B'') \<and> all_digits 2 ds)))"
| "non_decimal_literal _ = False"

definition js_isNaN :: "string \<Rightarrow> bool" where
  "js_isNaN str =
     (let s = trim str in \<not> (s = [] \<or> str_decimal_literal s \<or> non_decimal_literal s))"

text \<open>
  \<^verbatim>\<open>parseInt(s, radix)\<close>; radix \<open>0\<close> stands for a call without a radix. The result is
  \<open>None\<close> for NaN and otherwise the integer that the longest prefix of digits denotes.
  The number \<^verbatim>\<open>parseInt\<close> returns is this integer converted to a double: the integer
  itself up to \<open>2^53\<close> in magnitude, and a double of the same sign above that, which is
  all that the comparison with zero reads. A minus sign before a prefix of value zero
  gives the negative zero, which is not less than zero.
\<close>

fun sign_split :: "string \<Rightarrow> bool \<times> string" where
  "sign_split [] = (False, [])"
| "sign_split (c # cs) =
     (if c = CHR ''-'' then (True, cs)
      else if c = CHR ''+'' then (False, cs)
      else (False, c # cs))"

definition js_parseInt :: "string \<Rightarrow> nat \<Rightarrow> int option" where
  "js_parseInt str radix =
     (if radix \<noteq> 0 \<and> (radix < 2 \<or> 36 < radix) then None
      else
        (let (neg, s) = sign_split (dropWhile is_space str);
             hex = ((radix = 0 \<or> radix = 16) \<and> (take 2 s = ''0x'' \<or> take 2 s = ''0X''));
             r = (if hex then 16 else if radix = 0 then 10 else radix);
             z = takeWhile (\<lambda>c. radix_digit r c \<noteq> None) (if hex then drop 2 s else s)
         in if z = [] then None
            else Some ((if neg then - 1 else 1) * int (digits_value r z))))"

section \<open>Objects\<close>

text \<open>
  The values a row is materialized into: strings, numbers (an integer or NaN) and plain
  objects. \<open>JNum n\<close> is the number that the integer \<open>n\<close> converts to: \<open>n\<close> itself up
  to \<open>2^53\<close> in magnitude, above that the double nearest to \<open>n\<close>, which is not
  computed here; \<open>JNum 0\<close> is either zero. Statements about the number stored are made
  for integers up to \<open>2^53\<close>. An object is the list of its own properties in insertion order; assigning to
  a key it has keeps the key's place. Object.prototype is taken to be pristine, and the
  one key under which a plain object exposes it, \<^verbatim>\<open>__proto__\<close>, is outside this model:
  statements about arbitrary header paths say so with \<open>proto_free\<close>.
\<close>

datatype jsval = JStr string | JNum int | JNaN | JObj "(string \<times> jsval) list"

type_synonym jsobj = "(string \<times> jsval) list"

fun assign :: "string \<Rightarrow> jsval \<Rightarrow> jsobj \<Rightarrow> jsobj" where
  "assign k v [] = [(k, v)]"
| "assign k v ((k', v') # kvs) =
     (if k' = k then (k, v) # kvs else (k', v') # assign k v kvs)"

fun remove_key :: "string \<Rightarrow> jsobj \<Rightarrow> jsobj" where
  "remove_key k [] = []"
| "remove_key k ((k', v') # kvs) = (if k' = k then kvs else (k', v') # remove_key k kvs)"

definition proto_free_path :: "string \<Rightarrow> bool" where
  "proto_free_path p = (\<not> List.member (split_on CHR ''.'' [] p) ''__proto__'')"

definition proto_free :: "string list \<Rightarrow> bool" where
  "proto_free hs = list_all (\<lambda>h. proto_free_path (trim h)) hs"

section \<open>The row tokenizer: parseCSVLine\<close>

text \<open>
  The scan of \<^verbatim>\<open>parseCSVLine\<close>: the characters from index \<open>i\<close> on, the field under
  construction, the quote state and the fields pushed so far. \<^verbatim>\<open>line[i + 1]\<close> is the
  head of the rest after the current character; past the end it is \<^verbatim>\<open>undefined\<close>, which
  is not a quote.
\<close>

fun scan :: "string \<Rightarrow> string \<Rightarrow> bool \<Rightarrow> string list \<Rightarrow> string list" where
  "scan [] current insideQuotes vals = vals @ [trim current]"
| "scan (c # cs) current insideQuotes vals =
     (if c = dquote then
        (case cs of
           [] \<Rightarrow> scan cs current (\<not> insideQuotes) vals
         | d # ds \<Rightarrow>
             if insideQuotes \<and> d = dquote then scan ds (current @ [dquote]) insideQuotes vals
             else scan cs current (\<not> insideQuotes) vals)
      else if c = CHR '','' \<and> \<not> insideQuotes then scan cs [] insideQuotes (vals @ [trim current])
      else scan cs (current @ [c]) insideQuotes vals)"

definition parseCSVLine :: "string \<Rightarrow> string list" where
  "parseCSVLine line = scan line [] False []"

section \<open>Errors\<close>

datatype stmt_kind = Connect | Begin | Insert | Commit | Rollback

datatype error =
    MissingMandatoryFields "string list"
  | InvalidAge string
  | UndefinedRead string
  | QueryFailed stmt_kind

fun message :: "error \<Rightarrow> string" where
  "message (MissingMandatoryFields fs) = ''Missing mandatory fields: '' @ join '', '' fs"
| "message (InvalidAge v) =
     ''Invalid age value: '' @ [dquote] @ v @ [dquote] @ ''. Age must be a valid positive number.''"
| "message (UndefinedRead p) =
     ''Cannot read properties of undefined (reading '' @ [CHR 0x27] @ p @ [CHR 0x27] @ '')''"
| "message (QueryFailed k) = ''query failed''"

section \<open>Header validation and row materialization\<close>

definition mandatoryFields :: "string list" where
  "mandatoryFields = [''name.firstName'', ''name.lastName'', ''age'']"

definition batchSize :: nat where
  "batchSize = 1000"

definition validateMandatoryFields :: "string list \<Rightarrow> error + unit" where
  "validateMandatoryFields headers =
     (let missingFields = filter (\<lambda>field. \<not> List.member headers field) mandatoryFields
      in if length missingFields > 0 then Inl (MissingMandatoryFields missingFields)
         else Inr ())"

text \<open>
  The value \<^verbatim>\<open>setNestedProperty\<close> stores at the last key: the parsed number when the key
  is \<^verbatim>\<open>age\<close> and the string converts to a number, the string itself otherwise.
\<close>

definition leaf :: "string \<Rightarrow> string \<Rightarrow> jsval" where
  "leaf lastKey v =
     (if lastKey = ''age'' \<and> \<not> js_isNaN v
      then (case js_parseInt v 10 of Some n \<Rightarrow> JNum n | None \<Rightarrow> JNaN)
      else JStr v)"

text \<open>
  The walk of \<^verbatim>\<open>setNestedProperty\<close> along the keys: at every key but the last, a missing
  entry or one that is not an object is replaced by a fresh empty object before the walk
  descends into it.
\<close>

fun set_path :: "string list \<Rightarrow> string \<Rightarrow> jsobj \<Rightarrow> jsobj" where
  "set_path [] v obj = obj"
| "set_path [lastKey] v obj = assign lastKey (leaf lastKey v) obj"
| "set_path (key # k # ks) v obj =
     (let child = (case map_of obj key of Some (JObj kvs) \<Rightarrow> kvs | _ \<Rightarrow> [])
      in assign key (JObj (set_path (k # ks) v child)) obj)"

definition setNestedProperty :: "jsobj \<Rightarrow> string \<Rightarrow> string \<Rightarrow> jsobj" where
  "setNestedProperty obj path v = set_path (split_on CHR ''.'' [] path) v obj"

text \<open>The test of the age field in \<^verbatim>\<open>convertRowToObject\<close>.\<close>

definition age_invalid :: "string \<Rightarrow> bool" where
  "age_invalid v =
     (v = [] \<or> js_isNaN v \<or> (case js_parseInt v 0 of Some n \<Rightarrow> n < 0 | None \<Rightarrow> False))"

text \<open>
  The loop of \<^verbatim>\<open>convertRowToObject\<close> over the header positions, on the headers and values
  that remain. A header with no value at its index reads \<^verbatim>\<open>undefined\<close>, and calling
  \<^verbatim>\<open>trim\<close> on it throws; values beyond the last header are never read.
\<close>

fun convert_fields :: "string list \<Rightarrow> string list \<Rightarrow> jsobj \<Rightarrow> jsobj \<Rightarrow> error + jsobj \<times> jsobj" where
  "convert_fields [] vs result additionalInfo = Inr (result, additionalInfo)"
| "convert_fields (h # hs) [] result additionalInfo = Inl (UndefinedRead ''trim'')"
| "convert_fields (h # hs) (v # vs) result additionalInfo =
     (let header = trim h; val = trim v in
      if List.member mandatoryFields header then
        (if header = ''age'' \<and> age_invalid val then Inl (InvalidAge val)
         else convert_fields hs vs (setNestedProperty result header val) additionalInfo)
      else convert_fields hs vs result (setNestedProperty additionalInfo header val))"

definition convertRowToObject :: "string list \<Rightarrow> string list \<Rightarrow> error + jsval" where
  "convertRowToObject headers vals =
     (case convert_fields headers vals [] [] of
        Inl e \<Rightarrow> Inl e
      | Inr (result, additionalInfo) \<Rightarrow>
          Inr (JObj (if length additionalInfo > 0
                     then assign ''additional_info'' (JObj additionalInfo) result
                     else result)))"

section \<open>The store and the transactional batch writer: uploadUsersBatch\<close>

text \<open>
  The table \<^verbatim>\<open>public.users\<close> of \<^verbatim>\<open>createUsersTable\<close>, without the generated columns
  \<^verbatim>\<open>id\<close> and \<^verbatim>\<open>created_at\<close>. A JSONB column holds the value whose JSON text was sent
  (the text itself is not modelled), \<open>None\<close> for SQL null.
\<close>

record users_row =
  name :: string
  age :: int
  address :: "jsval option"
  additional_info :: "jsval option"

text \<open>The four parameters that \<^verbatim>\<open>uploadUsersBatch\<close> pushes for one record.\<close>

record insert_params =
  fullName :: string
  age_param :: "jsval option"
  address_param :: "jsval option"
  info_param :: "jsval option"

text \<open>
  The database as the writer sees it through its client: the committed rows and the rows
  of the client's open transaction, if it has one. The database is outside the
  repository; its statements are given the usual meaning. An \<^verbatim>\<open>INSERT\<close> is rejected
  when its \<^verbatim>\<open>VALUES\<close> list is empty or when an age is not an integer of 32 bits (the
  column is \<^verbatim>\<open>INTEGER NOT NULL\<close>), and any statement fails when the environment makes it
  fail (the list of faults of the call). A statement that fails changes no row, and it
  leaves nothing of the client's open transaction to commit later: the server aborts a
  transaction in which a statement fails, a \<^verbatim>\<open>COMMIT\<close> that fails has not committed, and
  the transaction of a lost connection is rolled back by the server; the model ends the
  open transaction at the failure. The writer runs from its first statement to its last
  without another writer in between.
\<close>

record store =
  users :: "users_row list"
  txn :: "users_row list option"

datatype stmt = BEGIN | INSERT "insert_params list" | COMMIT | ROLLBACK

fun kind_of :: "stmt \<Rightarrow> stmt_kind" where
  "kind_of BEGIN = Begin"
| "kind_of (INSERT ps) = Insert"
| "kind_of COMMIT = Commit"
| "kind_of ROLLBACK = Rollback"

fun row_of :: "insert_params \<Rightarrow> users_row option" where
  "row_of p =
     (case age_param p of
        Some (JNum n) \<Rightarrow>
          if - 2147483648 \<le> n \<and> n \<le> 2147483647
          then Some \<lparr>name = fullName p, age = n, address = address_param p,
                     additional_info = info_param p\<rparr>
          else None
      | _ \<Rightarrow> None)"

fun rows_of :: "insert_params list \<Rightarrow> users_row list option" where
  "rows_of [] = Some []"
| "rows_of (p # ps) =
     (case row_of p of
        None \<Rightarrow> None
      | Some r \<Rightarrow> (case rows_of ps of None \<Rightarrow> None | Some rs \<Rightarrow> Some (r # rs)))"

fun exec :: "stmt \<Rightarrow> store \<Rightarrow> store option" where
  "exec BEGIN s = Some (case txn s of None \<Rightarrow> s\<lparr>txn := Some []\<rparr> | Some p \<Rightarrow> s)"
| "exec (INSERT ps) s =
     (if ps = [] then None
      else case rows_of ps of
             None \<Rightarrow> None
           | Some rs \<Rightarrow>
               (case txn s of
                  Some p \<Rightarrow> Some (s\<lparr>txn := Some (p @ rs)\<rparr>)
                | None \<Rightarrow> Some (s\<lparr>users := users s @ rs\<rparr>)))"
| "exec COMMIT s =
     Some (case txn s of None \<Rightarrow> s | Some p \<Rightarrow> \<lparr>users = users s @ p, txn = None\<rparr>)"
| "exec ROLLBACK s = Some (s\<lparr>txn := None\<rparr>)"

definition query :: "stmt_kind list \<Rightarrow> stmt \<Rightarrow> store \<Rightarrow> error option \<times> store" where
  "query faults st s =
     (let failure = (Some (QueryFailed (kind_of st)), s\<lparr>txn := None\<rparr>)
      in if List.member faults (kind_of st) then failure
         else case exec st s of None \<Rightarrow> failure | Some s' \<Rightarrow> (None, s'))"

text \<open>Reading values the way the loop body of \<^verbatim>\<open>uploadUsersBatch\<close> does.\<close>

fun get_prop :: "jsval option \<Rightarrow> string \<Rightarrow> jsval option" where
  "get_prop (Some (JObj kvs)) k = map_of kvs k"
| "get_prop _ k = None"

fun truthy :: "jsval option \<Rightarrow> bool" where
  "truthy None = False"
| "truthy (Some (JStr s)) = (s \<noteq> [])"
| "truthy (Some (JNum n)) = (n \<noteq> 0)"
| "truthy (Some JNaN) = False"
| "truthy (Some (JObj kvs)) = True"

fun to_string :: "jsval option \<Rightarrow> string" where
  "to_string None = ''undefined''"
| "to_string (Some (JStr s)) = s"
| "to_string (Some (JNum n)) =
     (if n < 0 then ''-'' @ string_of_nat (nat (- n)) else string_of_nat (nat n))"
| "to_string (Some JNaN) = ''NaN''"
| "to_string (Some (JObj kvs)) = ''[object Object]''"

fun spread :: "jsval option \<Rightarrow> jsobj" where
  "spread (Some (JObj kvs)) = kvs"
| "spread (Some (JStr s)) = zip (map string_of_nat [0..<length s]) (map (\<lambda>c. JStr [c]) s)"
| "spread _ = []"

text \<open>
  One pass of the loop over \<^verbatim>\<open>usersData\<close>: the parameters of one record, or the
  TypeError of reading \<^verbatim>\<open>firstName\<close> from a record without \<^verbatim>\<open>name\<close>.
\<close>

definition user_params :: "jsval \<Rightarrow> error + insert_params" where
  "user_params userData =
     (let name = get_prop (Some userData) ''name'';
          age = get_prop (Some userData) ''age'';
          additional_info = get_prop (Some userData) ''additional_info'';
          found = truthy (get_prop additional_info ''address'');
          address = (if found then get_prop additional_info ''address'' else None);
          additionalInfo = (if found then remove_key ''address'' (spread additional_info)
                            else spread additional_info)
      in case name of
           None \<Rightarrow> Inl (UndefinedRead ''firstName'')
         | Some n \<Rightarrow>
             Inr \<lparr>fullName = to_string (get_prop name ''firstName'') @ '' '' @
                              to_string (get_prop name ''lastName''),
                  age_param = age,
                  address_param = address,
                  info_param = (if length additionalInfo > 0 then Some (JObj additionalInfo)
                                else None)\<rparr>)"

fun build_params :: "jsval list \<Rightarrow> error + insert_params list" where
  "build_params [] = Inr []"
| "build_params (u # us) =
     (case user_params u of
        Inl e \<Rightarrow> Inl e
      | Inr p \<Rightarrow> (case build_params us of Inl e \<Rightarrow> Inl e | Inr ps \<Rightarrow> Inr (p # ps)))"

text \<open>
  The body of the \<^verbatim>\<open>try\<close> block of \<^verbatim>\<open>uploadUsersBatch\<close>: the error thrown, or the
  count returned, with the store as the block leaves it.
\<close>

definition upload_try :: "stmt_kind list \<Rightarrow> jsval list \<Rightarrow> store \<Rightarrow> (error + nat) \<times> store" where
  "upload_try faults usersData s =
     (case query faults BEGIN s of
        (Some e, s1) \<Rightarrow> (Inl e, s1)
      | (None, s1) \<Rightarrow>
          (case build_params usersData of
             Inl e \<Rightarrow> (Inl e, s1)
           | Inr ps \<Rightarrow>
               (case query faults (INSERT ps) s1 of
                  (Some e, s2) \<Rightarrow> (Inl e, s2)
                | (None, s2) \<Rightarrow>
                    (case query faults COMMIT s2 of
                       (Some e, s3) \<Rightarrow> (Inl e, s3)
                     | (None, s3) \<Rightarrow> (Inr (length usersData), s3)))))"

text \<open>
  \<^verbatim>\<open>uploadUsersBatch\<close> (the pool is initialized): a failure to get a client is thrown
  before the \<^verbatim>\<open>try\<close>; an error of the block is answered with \<^verbatim>\<open>ROLLBACK\<close> and thrown
  again, unless \<^verbatim>\<open>ROLLBACK\<close> itself fails, whose error is then the one thrown.
\<close>

definition uploadUsersBatch :: "stmt_kind list \<Rightarrow> jsval list \<Rightarrow> store \<Rightarrow> (error + nat) \<times> store" where
  "uploadUsersBatch faults usersData s =
     (if List.member faults Connect then (Inl (QueryFailed Connect), s)
      else case upload_try faults usersData s of
             (Inr n, s') \<Rightarrow> (Inr n, s')
           | (Inl e, s') \<Rightarrow>
               (case query faults ROLLBACK s' of
                  (Some e', s'') \<Rightarrow> (Inl e', s'')
                | (None, s'') \<Rightarrow> (Inl e, s'')))"

section \<open>The batch callback of the endpoint\<close>

text \<open>
  The variables \<^verbatim>\<open>totalProcessed\<close> and \<^verbatim>\<open>totalErrors\<close> of the request handler in
  \<^verbatim>\<open>app.js\<close>, and the database. The callback catches every error of the writer, so it
  never rejects.
\<close>

record app =
  app_totalProcessed :: nat
  app_totalErrors :: nat
  db :: store

definition onBatch :: "stmt_kind list \<Rightarrow> jsval list \<Rightarrow> app \<Rightarrow> app" where
  "onBatch faults batch a =
     (case uploadUsersBatch faults batch (db a) of
        (Inr n, s) \<Rightarrow> a\<lparr>app_totalProcessed := app_totalProcessed a + length batch, db := s\<rparr>
      | (Inl e, s) \<Rightarrow> a\<lparr>app_totalErrors := app_totalErrors a + length batch, db := s\<rparr>)"

section \<open>The pipeline driver: parseCSVFile\<close>

text \<open>
  \<^verbatim>\<open>parseCSVFile\<close> registers an \<^verbatim>\<open>async\<close> listener for the \<^verbatim>\<open>line\<close> event and one for
  \<^verbatim>\<open>close\<close>. An event emitter calls a listener and does not wait for the promise it
  returns: a listener runs until its first \<^verbatim>\<open>await\<close>, and what follows the \<^verbatim>\<open>await\<close>
  runs later, when the awaited promise has settled. The only \<^verbatim>\<open>await\<close> of the two
  listeners is \<^verbatim>\<open>await onBatch(batch)\<close>. The driver is therefore a machine with three
  events: a line is delivered, the input is closed, and the oldest pending call of
  \<^verbatim>\<open>onBatch\<close> completes and its listener resumes. Which events come in which order is
  the environment's choice; \<open>serial\<close> and \<open>same_chunk\<close> below are two such orders.

  The state holds the variables of \<^verbatim>\<open>parseCSVFile\<close>. The variable \<^verbatim>\<open>batch\<close> refers to
  an array object, and a pending call of \<^verbatim>\<open>onBatch\<close> holds the array it was given, which
  is the same object until \<^verbatim>\<open>batch = []\<close> runs: \<open>arrays\<close> are the array objects made so
  far and \<open>batch\<close> is the index of the current one. \<open>handed\<close> records the argument of
  every call of \<^verbatim>\<open>onBatch\<close> as it was at the call, \<open>errorLog\<close> the appends to the error
  log, \<open>settled\<close> the outcome of the promise that \<^verbatim>\<open>parseCSVFile\<close> returns, and \<open>ext\<close>
  the state the callback works on. A failure of the input stream is not modelled.
\<close>

datatype cont = AfterLineFlush | AfterCloseFlush

datatype event = Line string | Close | Resume

record summary =
  sum_totalProcessed :: nat
  sum_totalErrors :: nat
  sum_headers :: "string list option"

record 'a driver =
  headers :: "string list option"
  arrays :: "jsval list list"
  batch :: nat
  totalProcessed :: nat
  totalErrors :: nat
  currLine :: nat
  errorLog :: "string list"
  suspended :: "(cont \<times> nat \<times> nat) list"
  handed :: "jsval list list"
  settled :: "(error + summary) option"
  ext :: 'a

text \<open>
  A callback, when it completes: from the number of the call, the array it was given as
  the array then is, and its own state, to the error it rejects with (if any) and its
  new state.
\<close>

type_synonym 'a callback = "nat \<Rightarrow> jsval list \<Rightarrow> 'a \<Rightarrow> error option \<times> 'a"

definition current_batch :: "'a driver \<Rightarrow> jsval list" where
  "current_batch st = arrays st ! batch st"

definition push :: "jsval \<Rightarrow> 'a driver \<Rightarrow> 'a driver" where
  "push obj st = st\<lparr>arrays := (arrays st)[batch st := current_batch st @ [obj]]\<rparr>"

definition reset_batch :: "'a driver \<Rightarrow> 'a driver" where
  "reset_batch st = st\<lparr>arrays := arrays st @ [[]], batch := length (arrays st)\<rparr>"

definition add_processed :: "'a driver \<Rightarrow> 'a driver" where
  "add_processed st = st\<lparr>totalProcessed := totalProcessed st + length (current_batch st)\<rparr>"

definition call_onBatch :: "cont \<Rightarrow> 'a driver \<Rightarrow> 'a driver" where
  "call_onBatch k st =
     st\<lparr>suspended := suspended st @ [(k, batch st, length (handed st))],
        handed := handed st @ [current_batch st]\<rparr>"

text \<open>The \<^verbatim>\<open>catch\<close> block of the line listener.\<close>

definition log_error :: "error \<Rightarrow> 'a driver \<Rightarrow> 'a driver" where
  "log_error e st =
     st\<lparr>totalErrors := totalErrors st + 1,
        errorLog := errorLog st @
          [''Line '' @ string_of_nat (currLine st) @ '': '' @ message e @ [CHR 0x0A]]\<rparr>"

definition resolve :: "'a driver \<Rightarrow> 'a driver" where
  "resolve st =
     st\<lparr>settled := Some (Inr \<lparr>sum_totalProcessed = totalProcessed st,
                               sum_totalErrors = totalErrors st,
                               sum_headers = headers st\<rparr>)\<rparr>"

text \<open>
  The line listener up to its \<^verbatim>\<open>await\<close>; \<open>cb\<close> tells whether \<^verbatim>\<open>onBatch\<close> was given.
\<close>

definition on_line :: "bool \<Rightarrow> string \<Rightarrow> 'a driver \<Rightarrow> 'a driver" where
  "on_line cb line st0 =
     (let st = st0\<lparr>currLine := currLine st0 + 1\<rparr> in
      case headers st of
        None \<Rightarrow>
          (let hs = parseCSVLine line; st1 = st\<lparr>headers := Some hs\<rparr> in
           case validateMandatoryFields hs of
             Inl e \<Rightarrow> log_error e st1
           | Inr u \<Rightarrow> st1)
      | Some hs \<Rightarrow>
          if trim line = [] then st
          else
            (case convertRowToObject hs (parseCSVLine line) of
               Inl e \<Rightarrow> log_error e st
             | Inr parsedObject \<Rightarrow>
                 (let st1 = push parsedObject st in
                  if length (current_batch st1) \<ge> batchSize then
                    (if cb then call_onBatch AfterLineFlush st1
                     else reset_batch (add_processed st1))
                  else st1)))"

text \<open>The close listener up to its \<^verbatim>\<open>await\<close>.\<close>

definition on_close :: "bool \<Rightarrow> 'a driver \<Rightarrow> 'a driver" where
  "on_close cb st =
     (if length (current_batch st) > 0 then
        (if cb then call_onBatch AfterCloseFlush st else resolve (add_processed st))
      else resolve st)"

text \<open>
  The oldest pending call of \<^verbatim>\<open>onBatch\<close> completes and the listener that awaits it runs
  to its end.
\<close>

definition on_resume :: "'a callback \<Rightarrow> 'a driver \<Rightarrow> 'a driver" where
  "on_resume f st =
     (case suspended st of
        [] \<Rightarrow> st
      | (k, a, n) # rest \<Rightarrow>
          (case f n (arrays st ! a) (ext st) of
             (r, x) \<Rightarrow>
               (let st1 = st\<lparr>suspended := rest, ext := x\<rparr> in
                case k of
                  AfterLineFlush \<Rightarrow>
                    (case r of
                       None \<Rightarrow> reset_batch (add_processed st1)
                     | Some e \<Rightarrow> log_error e st1)
                | AfterCloseFlush \<Rightarrow>
                    (case r of
                       None \<Rightarrow> resolve (add_processed st1)
                     | Some e \<Rightarrow> st1\<lparr>settled := Some (Inl e)\<rparr>))))"

fun step :: "'a callback option \<Rightarrow> event \<Rightarrow> 'a driver \<Rightarrow> 'a driver" where
  "step cb (Line l) st = on_line (cb \<noteq> None) l st"
| "step cb Close st = on_close (cb \<noteq> None) st"
| "step None Resume st = st"
| "step (Some f) Resume st = on_resume f st"

definition run :: "'a callback option \<Rightarrow> event list \<Rightarrow> 'a driver \<Rightarrow> 'a driver" where
  "run cb evs st = foldl (\<lambda>s e. step cb e s) st evs"

text \<open>
  Two orders of events for a file. In \<open>serial\<close> every listener has run to its end
  before the next event. In \<open>same_chunk\<close> the lines are delivered one after the other
  and nothing completes in between, as when the stream hands them to the line reader in
  one chunk; the pending calls complete after the input is closed.
\<close>

definition serial :: "string list \<Rightarrow> event list" where
  "serial ls = concat (map (\<lambda>l. [Line l, Resume]) ls) @ [Close, Resume]"

definition same_chunk :: "string list \<Rightarrow> event list" where
  "same_chunk ls = map Line ls @ [Close] @ replicate (Suc (length ls)) Resume"

section \<open>The endpoint\<close>

text \<open>
  The request handler deletes the error log, truncates the table and calls
  \<^verbatim>\<open>parseCSVFile\<close> with its callback; \<open>env n\<close> are the statements that fail in call
  \<open>n\<close> of the writer. The response is computed from the summary the promise resolved
  with and the handler's own counters, as they are when the events end; the age report
  printed before it is outside the model.
\<close>

definition app_callback :: "(nat \<Rightarrow> stmt_kind list) \<Rightarrow> app callback" where
  "app_callback env n usersData a = (None, onBatch (env n) usersData a)"

definition init :: "app driver" where
  "init =
     \<lparr>headers = None, arrays = [[]], batch = 0, totalProcessed = 0, totalErrors = 0,
      currLine = 0, errorLog = [], suspended = [], handed = [], settled = None,
      ext = \<lparr>app_totalProcessed = 0, app_totalErrors = 0,
              db = \<lparr>users = [], txn = None\<rparr>\<rparr>\<rparr>"

record response =
  recordsProcessed :: nat
  errors :: nat

definition respond :: "app driver \<Rightarrow> (error + response) option" where
  "respond st =
     (case settled st of
        None \<Rightarrow> None
      | Some (Inl e) \<Rightarrow> Some (Inl e)
      | Some (Inr sm) \<Rightarrow>
          Some (Inr \<lparr>recordsProcessed = app_totalProcessed (ext st),
                     errors = sum_totalErrors sm + app_totalErrors (ext st)\<rparr>))"

definition process_csv :: "(nat \<Rightarrow> stmt_kind list) \<Rightarrow> event list \<Rightarrow> app driver" where
  "process_csv env evs = run (Some (app_callback env)) evs init"

section \<open>Examples and invariants used below\<close>

definition example_header :: string where
  "example_header = ''name.firstName,name.lastName,age''"

definition example_headers :: "string list" where
  "example_headers = [''name.firstName'', ''name.lastName'', ''age'']"

definition example_row :: string where
  "example_row = ''Rohit,Prasad,35''"

definition example_record :: jsval where
  "example_record =
     JObj [(''name'', JObj [(''firstName'', JStr ''Rohit''), (''lastName'', JStr ''Prasad'')]),
           (''age'', JNum 35)]"

definition example_params :: insert_params where
  "example_params = \<lparr>fullName = ''Rohit Prasad'', age_param = Some (JNum 35),
                       address_param = None, info_param = None\<rparr>"

definition example_users_row :: users_row where
  "example_users_row =
     \<lparr>name = ''Rohit Prasad'', age = 35, address = None, additional_info = None\<rparr>"

text \<open>Environments: no statement ever fails; the \<^verbatim>\<open>INSERT\<close> of the second call fails.\<close>

definition no_faults :: "nat \<Rightarrow> stmt_kind list" where
  "no_faults n = []"

definition second_fails :: "nat \<Rightarrow> stmt_kind list" where
  "second_fails n = (if n = 1 then [Insert] else [])"

definition all_trimmed :: "string list \<Rightarrow> bool" where
  "all_trimmed vs = list_all (\<lambda>v. trim v = v) vs"

text \<open>
  The driver after the example header and \<open>n\<close> example rows that arrived in one chunk:
  one array holds all \<open>n\<close> records, and from the row that filled it to the bound on,
  every row has called \<^verbatim>\<open>onBatch\<close> with that array and left its listener suspended.
\<close>

definition chunk_inv :: "nat \<Rightarrow> 'a driver \<Rightarrow> bool" where
  "chunk_inv n st =
     (headers st = Some example_headers \<and> batch st = 0 \<and>
      arrays st = [replicate n example_record] \<and>
      handed st = map (\<lambda>k. replicate k example_record) [batchSize..<Suc n])"

definition chunk_state :: "nat \<Rightarrow> app driver \<Rightarrow> bool" where
  "chunk_state n st =
     (chunk_inv n st \<and>
      suspended st = map (\<lambda>k. (AfterLineFlush, 0, k - batchSize)) [batchSize..<Suc n] \<and>
      settled st = None \<and> totalErrors st = 0 \<and> totalProcessed st = 0 \<and> ext st = ext init)"

text \<open>
  The state of the endpoint's callback after \<open>q\<close> full batches of example records, and
  after a file of \<open>n\<close> example rows, when every flush completes before the next event.
\<close>

fun app_after :: "(nat \<Rightarrow> stmt_kind list) \<Rightarrow> nat \<Rightarrow> app" where
  "app_after env 0 = ext init"
| "app_after env (Suc q) =
     onBatch (env q) (replicate batchSize example_record) (app_after env q)"

definition final_app :: "(nat \<Rightarrow> stmt_kind list) \<Rightarrow> nat \<Rightarrow> app" where
  "final_app env n =
     (if 0 < n mod batchSize
      then onBatch (env (n div batchSize)) (replicate (n mod batchSize) example_record)
             (app_after env (n div batchSize))
      else app_after env (n div batchSize))"

definition serial_inv :: "(nat \<Rightarrow> stmt_kind list) \<Rightarrow> nat \<Rightarrow> app driver \<Rightarrow> bool" where
  "serial_inv env n st =
     (headers st = Some example_headers \<and> suspended st = [] \<and> settled st = None \<and>
      batch st < length (arrays st) \<and>
      current_batch st = replicate (n mod batchSize) example_record \<and>
      handed st = replicate (n div batchSize) (replicate batchSize example_record) \<and>
      totalErrors st = 0 \<and> errorLog st = [] \<and>
      ext st = app_after env (n div batchSize))"

text \<open>
  A batch within the bound, and the driver between two events when every flush has
  completed: no listener is suspended and the current batch is below the bound.
\<close>

definition good_batch :: "jsval list \<Rightarrow> bool" where
  "good_batch b = (0 < length b \<and> length b \<le> batchSize)"

definition idle_inv :: "'a driver \<Rightarrow> bool" where
  "idle_inv st =
     (suspended st = [] \<and> batch st < length (arrays st) \<and>
      length (current_batch st) < batchSize \<and> list_all good_batch (handed st))"

section \<open>Properties of the tokenizer\<close>

lemma scan_nonempty: "scan line cur q vals \<noteq> []"
proof (induction line arbitrary: cur q vals rule: length_induct)
  case (1 line)
  show ?case
  proof (cases line)
    case Nil
    then show ?thesis by simp
  next
    case (Cons c cs)
    have IH1: "scan cs cur' q' vals' \<noteq> []" for cur' q' vals'
      using 1 Cons by simp
    have IH2: "scan ds cur' q' vals' \<noteq> []" if "cs = d # ds" for d ds cur' q' vals'
      using 1 Cons that by simp
    show ?thesis
      unfolding Cons scan.simps(2)
      using IH1 IH2 by (simp only: split: list.split if_split) blast
  qed
qed

text \<open>
  C9. The tokenizer is total: \<open>parseCSVLine\<close> is a terminating function without an
  error result, it returns at least one field for every line (unbalanced quotes
  included), and the empty line yields exactly one field, the empty string.
\<close>

theorem parseCSVLine_total:
  "length (parseCSVLine line) \<ge> 1 \<and> parseCSVLine [] = [[]]"
proof
  have "parseCSVLine line \<noteq> []"
    unfolding parseCSVLine_def by (rule scan_nonempty)
  then show "length (parseCSVLine line) \<ge> 1"
    by (cases "parseCSVLine line") simp_all
  show "parseCSVLine [] = [[]]"
    by (simp add: parseCSVLine_def trim_def)
qed

text \<open>
  C6. The line \<^verbatim>\<open>She said ""hi""\<close> has no quoted field: each of its four quote
  characters is read outside quotes or directly before a character that is not a quote,
  so each only toggles the quote state and none reaches the field. The claim that the
  embedded quotes are reproduced fails.
\<close>

theorem unquoted_doubled_quotes_dropped:
  \<open>dquote \<notin> set (concat (parseCSVLine ''She said ""hi""''))\<close>
  by code_simp

text \<open>
  C6, as the code has it: the line yields the single field \<^verbatim>\<open>She said hi\<close>; the escape
  rule emits a literal quote only inside a quoted field, as in \<^verbatim>\<open>"She said ""hi"""\<close>.
\<close>

theorem escaped_quotes_only_inside_quotes:
  \<open>parseCSVLine ''She said ""hi""'' = [''She said hi''] \<and>
   parseCSVLine ''"She said ""hi"""'' = [''She said "hi"'']\<close>
  by code_simp

lemma dropWhile_rev_dropWhile:
  assumes "t = [] \<or> \<not> P (hd t)"
  shows "dropWhile P (rev (dropWhile P (rev t))) = rev (dropWhile P (rev t))"
proof -
  define u where "u = dropWhile P (rev t)"
  have "dropWhile P (rev u) = rev u"
  proof (cases "u = []")
    case True
    then show ?thesis by simp
  next
    case False
    have "rev t = takeWhile P (rev t) @ u"
      unfolding u_def by simp
    then have "rev (rev t) = rev (takeWhile P (rev t) @ u)" by (rule arg_cong)
    then have t: "t = rev u @ rev (takeWhile P (rev t))" by simp
    from False have ne: "rev u \<noteq> []" by simp
    from t ne have "t \<noteq> []" by auto
    with assms have "\<not> P (hd t)" by simp
    moreover from t ne have "hd t = hd (rev u)" by (metis hd_append2)
    ultimately have "\<not> P (hd (rev u))" by simp
    with ne show ?thesis by (cases "rev u") simp_all
  qed
  then show ?thesis by (simp only: u_def)
qed

lemma trim_trim: "trim (trim s) = trim s"
proof -
  define t where "t = dropWhile is_space s"
  have "t = [] \<or> \<not> is_space (hd t)"
    unfolding t_def by (metis hd_dropWhile)
  from dropWhile_rev_dropWhile [of t is_space, OF this]
  have "dropWhile is_space (rev (dropWhile is_space (rev t))) = rev (dropWhile is_space (rev t))" .
  then show ?thesis
    by (simp add: trim_def t_def [symmetric])
qed

lemma all_trimmed_snoc: "all_trimmed vals \<Longrightarrow> all_trimmed (vals @ [trim cur])"
  by (simp add: all_trimmed_def trim_trim)

lemma scan_trimmed:
  "all_trimmed vals \<Longrightarrow> all_trimmed (scan line cur q vals)"
proof (induction line arbitrary: cur q vals rule: length_induct)
  case (1 line)
  show ?case
  proof (cases line)
    case Nil
    with 1(2) show ?thesis by (simp add: all_trimmed_snoc)
  next
    case (Cons c cs)
    have IH1: "all_trimmed (scan cs cur' q' vals')" if "all_trimmed vals'" for cur' q' vals'
      using 1(1) Cons that by simp
    have IH2: "all_trimmed (scan ds cur' q' vals')"
      if "cs = d # ds" "all_trimmed vals'" for d ds cur' q' vals'
      using 1(1) Cons that by simp
    show ?thesis
      unfolding Cons scan.simps(2)
      using IH1 [OF 1(2)] IH1 [OF all_trimmed_snoc [OF 1(2)]] IH2 [OF _ 1(2)]
      by (simp only: split: list.split if_split) blast
  qed
qed

lemma parseCSVLine_trimmed: "v \<in> set (parseCSVLine line) \<Longrightarrow> trim v = v"
  using scan_trimmed [of "[]" line "[]" False]
  by (simp add: parseCSVLine_def all_trimmed_def list_all_iff)

section \<open>Nested path assignment\<close>





section \<open>Materialization\<close>

lemma parse_example_header: "parseCSVLine example_header = example_headers"
  unfolding example_headers_def by code_simp

lemma validate_example_headers: "validateMandatoryFields example_headers = Inr ()"
  unfolding example_headers_def by code_simp

lemma example_row_not_blank: "trim example_row \<noteq> []"
  by code_simp

lemma convert_example_row:
  "convertRowToObject example_headers (parseCSVLine example_row) = Inr example_record"
  unfolding example_headers_def by code_simp

lemma run_Nil: "run cb [] st = st"
  by (simp add: run_def)

lemma run_Cons: "run cb (ev # evs) st = run cb evs (step cb ev st)"
  by (simp add: run_def)

lemma run_append: "run cb (evs @ evs') st = run cb evs' (run cb evs st)"
  by (simp add: run_def)

lemma line_example_header:
  "headers st = None \<Longrightarrow>
   on_line cb example_header st = st\<lparr>currLine := currLine st + 1, headers := Some example_headers\<rparr>"
  by (simp add: on_line_def Let_def parse_example_header validate_example_headers)

lemma line_example_row:
  "headers st = Some example_headers \<Longrightarrow>
   on_line cb example_row st =
     (let st1 = push example_record (st\<lparr>currLine := currLine st + 1\<rparr>) in
      if batchSize \<le> length (current_batch st1) then
        (if cb then call_onBatch AfterLineFlush st1 else reset_batch (add_processed st1))
      else st1)"
  by (simp add: on_line_def Let_def example_row_not_blank convert_example_row)


lemma convert_fields_short:
  "length vs < length hs \<Longrightarrow>
   \<exists>e. convert_fields hs vs r a = Inl e \<and> (e = UndefinedRead ''trim'' \<or> (\<exists>v. e = InvalidAge v))"
proof (induction hs vs r a rule: convert_fields.induct)
  case (1 vs result additionalInfo)
  then show ?case by simp
next
  case (2 h hs result additionalInfo)
  then show ?case by simp
next
  case (3 h hs v vs result additionalInfo)
  then show ?case by (simp add: Let_def)
qed

lemma convertRowToObject_short:
  assumes "length vs < length hs"
  shows "\<exists>e. convertRowToObject hs vs = Inl e \<and> (e = UndefinedRead ''trim'' \<or> (\<exists>v. e = InvalidAge v))"
proof -
  from convert_fields_short [OF assms, of "[]" "[]"]
  obtain e where "convert_fields hs vs [] [] = Inl e" "e = UndefinedRead ''trim'' \<or> (\<exists>v. e = InvalidAge v)"
    by blast
  then show ?thesis by (simp add: convertRowToObject_def)
qed

text \<open>
  C4. A row with fewer values than the header has paths is not materialized with absent
  entries: for the three mandatory paths and the two values \<^verbatim>\<open>Rohit\<close>, \<^verbatim>\<open>Prasad\<close> the
  read of the third value is \<^verbatim>\<open>undefined\<close> and \<^verbatim>\<open>trim\<close> throws.
\<close>

theorem short_row_rejected:
  "convertRowToObject example_headers [''Rohit'', ''Prasad''] = Inl (UndefinedRead ''trim'')"
  unfolding example_headers_def by code_simp

text \<open>
  C4, as the code has it: every row shorter than the header fails materialization, with
  the TypeError of reading a missing value or, when an age among the values present is
  invalid, with that error.
\<close>

theorem short_row_fails:
  assumes "proto_free hs" and "length vs < length hs"
  shows "\<exists>e. convertRowToObject hs vs = Inl e \<and>
             (e = UndefinedRead ''trim'' \<or> (\<exists>v. e = InvalidAge v))"
  using assms(2) by (rule convertRowToObject_short)

theorem short_row_fails_witness:
  "(\<exists>e. convertRowToObject example_headers [''Rohit'', ''Prasad''] = Inl e) \<and>
   errorLog (process_csv no_faults [Line example_header, Line ''Rohit,Prasad'', Close, Resume]) =
     [''Line 2: Cannot read properties of undefined (reading '' @ [CHR 0x27] @ ''trim'' @
        [CHR 0x27] @ '')'' @ [CHR 0x0A]] \<and>
   users (db (ext (process_csv no_faults
      [Line example_header, Line ''Rohit,Prasad'', Close, Resume]))) = []"
proof -
  have p: "proto_free example_headers" by code_simp
  have l: "length [''Rohit'', ''Prasad''] < length example_headers" by code_simp
  from short_row_fails [OF p l]
  have "\<exists>e. convertRowToObject example_headers [''Rohit'', ''Prasad''] = Inl e" by blast
  moreover have "errorLog (process_csv no_faults [Line example_header, Line ''Rohit,Prasad'', Close, Resume]) =
     [''Line 2: Cannot read properties of undefined (reading '' @ [CHR 0x27] @ ''trim'' @
        [CHR 0x27] @ '')'' @ [CHR 0x0A]]"
    by code_simp
  moreover have "users (db (ext (process_csv no_faults
      [Line example_header, Line ''Rohit,Prasad'', Close, Resume]))) = []"
    by code_simp
  ultimately show ?thesis by simp
qed
















lemma row_failure_skipped:
  assumes "headers st = Some hs" "trim line \<noteq> []"
    and "convertRowToObject hs (parseCSVLine line) = Inl e"
  shows "on_line cb line st = log_error e (st\<lparr>currLine := currLine st + 1\<rparr>)"
  using assms by (simp add: on_line_def Let_def)









section \<open>The batch writer\<close>

























section \<open>End to end\<close>

text \<open>
  C8. For the header line \<^verbatim>\<open>name.firstName,name.lastName,age\<close> and the one data row
  \<^verbatim>\<open>Rohit,Prasad,35\<close>, with no failing statement, the table holds the single row
  (Rohit Prasad, 35, null, null) and the response reports one record processed and no
  error. The two lines, the close of the input and the completion of the one flush can
  only come in this order.
\<close>

theorem end_to_end_one_row:
  "users (db (ext (process_csv no_faults
      [Line example_header, Line example_row, Close, Resume]))) =
     [\<lparr>name = ''Rohit Prasad'', age = 35, address = None, additional_info = None\<rparr>] \<and>
   respond (process_csv no_faults [Line example_header, Line example_row, Close, Resume]) =
     Some (Inr \<lparr>recordsProcessed = 1, errors = 0\<rparr>)"
  by code_simp

section \<open>The header check\<close>

text \<open>
  C1. A header line without \<^verbatim>\<open>name.lastName\<close>: \<^verbatim>\<open>validateMandatoryFields\<close> throws
  inside the \<^verbatim>\<open>try\<close> of the line listener, after \<^verbatim>\<open>headers\<close> has been assigned. The
  \<^verbatim>\<open>catch\<close> logs the error as that of line 1 and counts it; the promise is not rejected,
  the next line is materialized against the incomplete header and persisted, and the
  response reports one record processed and one error.
\<close>

theorem header_failure_not_fatal:
  "errorLog (process_csv no_faults [Line ''name.firstName,age'', Line ''Rohit,35'', Close, Resume]) =
     [''Line 1: Missing mandatory fields: name.lastName'' @ [CHR 0x0A]] \<and>
   users (db (ext (process_csv no_faults
      [Line ''name.firstName,age'', Line ''Rohit,35'', Close, Resume]))) =
     [\<lparr>name = ''Rohit undefined'', age = 35, address = None, additional_info = None\<rparr>] \<and>
   respond (process_csv no_faults [Line ''name.firstName,age'', Line ''Rohit,35'', Close, Resume]) =
     Some (Inr \<lparr>recordsProcessed = 1, errors = 1\<rparr>)"
  by code_simp

section \<open>Batches\<close>

lemma user_params_example: "user_params example_record = Inr example_params"
  unfolding example_params_def by code_simp

lemma row_of_example: "row_of example_params = Some example_users_row"
  unfolding example_params_def example_users_row_def by code_simp

lemma build_params_replicate:
  "build_params (replicate m example_record) = Inr (replicate m example_params)"
  by (induction m) (simp_all add: user_params_example)

lemma rows_of_replicate:
  "rows_of (replicate m example_params) = Some (replicate m example_users_row)"
  by (induction m) (simp_all add: row_of_example del: row_of.simps)

lemma upload_replicate_ok:
  assumes "0 < m" "txn s = None"
  shows "uploadUsersBatch [] (replicate m example_record) s =
           (Inr m, \<lparr>users = users s @ replicate m example_users_row, txn = None\<rparr>)"
  using assms
  by (simp add: uploadUsersBatch_def upload_try_def query_def Let_def build_params_replicate
      rows_of_replicate)

lemma upload_replicate_insert_fails:
  assumes "txn s = None"
  shows "uploadUsersBatch [Insert] (replicate m example_record) s =
           (Inl (QueryFailed Insert), \<lparr>users = users s, txn = None\<rparr>)"
  using assms
  by (simp add: uploadUsersBatch_def upload_try_def query_def Let_def build_params_replicate)

lemma onBatch_replicate_ok:
  assumes "0 < m" "txn (db a) = None"
  shows "onBatch [] (replicate m example_record) a =
           a\<lparr>app_totalProcessed := app_totalProcessed a + m,
             db := \<lparr>users = users (db a) @ replicate m example_users_row, txn = None\<rparr>\<rparr>"
  by (simp add: onBatch_def upload_replicate_ok [OF assms])

lemma onBatch_replicate_insert_fails:
  assumes "txn (db a) = None"
  shows "onBatch [Insert] (replicate m example_record) a =
           a\<lparr>app_totalErrors := app_totalErrors a + m,
             db := \<lparr>users = users (db a), txn = None\<rparr>\<rparr>"
  by (simp add: onBatch_def upload_replicate_insert_fails [OF assms])

lemma chunk_inv_step:
  assumes "chunk_inv n st"
  shows "chunk_inv (Suc n) (on_line True example_row st)"
proof -
  from assms have h: "headers st = Some example_headers" and b: "batch st = 0"
    and a: "arrays st = [replicate n example_record]"
    and c: "handed st = map (\<lambda>k. replicate k example_record) [batchSize..<Suc n]"
    by (simp_all add: chunk_inv_def)
  have r: "replicate n example_record @ [example_record] = replicate (Suc n) example_record"
    by (simp add: replicate_append_same)
  show ?thesis
  proof (cases "batchSize \<le> Suc n")
    case True
    then have "[batchSize..<Suc (Suc n)] = [batchSize..<Suc n] @ [Suc n]" by simp
    with True h b a c r show ?thesis
      by (simp add: line_example_row [OF h] Let_def push_def current_batch_def
          call_onBatch_def chunk_inv_def del: replicate_Suc upt_Suc)
  next
    case False
    then have "[batchSize..<Suc (Suc n)] = []" "[batchSize..<Suc n] = []" by simp_all
    with False h b a c r show ?thesis
      by (simp add: line_example_row [OF h] Let_def push_def current_batch_def
          chunk_inv_def del: replicate_Suc upt_Suc)
  qed
qed

lemma chunk_inv_rows:
  assumes "chunk_inv 0 st"
  shows "chunk_inv n (run (Some f) (map Line (replicate n example_row)) st)"
proof (induction n)
  case 0
  with assms show ?case by (simp add: run_Nil)
next
  case (Suc n)
  have "replicate (Suc n) example_row = replicate n example_row @ [example_row]"
    by (simp add: replicate_append_same)
  then have "run (Some f) (map Line (replicate (Suc n) example_row)) st =
      step (Some f) (Line example_row) (run (Some f) (map Line (replicate n example_row)) st)"
    by (simp add: run_append run_Cons run_Nil del: replicate_Suc)
  with chunk_inv_step [OF Suc.IH] show ?case by simp
qed

lemma chunk_inv_header: "chunk_inv 0 (on_line cb example_header init)"
proof -
  have "headers init = None" by (simp add: init_def)
  from line_example_header [OF this] show ?thesis
    by (simp add: chunk_inv_def init_def batchSize_def)
qed

lemma same_chunk_handed:
  "map length (handed (process_csv env (map Line (example_header # replicate n example_row)))) =
     [batchSize..<Suc n]"
proof -
  have "chunk_inv n (process_csv env (map Line (example_header # replicate n example_row)))"
    unfolding process_csv_def using chunk_inv_rows [OF chunk_inv_header [of True]]
    by (simp add: run_Cons)
  then show ?thesis
    by (simp add: chunk_inv_def map_idI del: upt_Suc)
qed

lemma chunk_state_step:
  assumes "chunk_state n st"
  shows "chunk_state (Suc n) (on_line True example_row st)"
proof -
  from assms have i: "chunk_inv n st"
    and s: "suspended st = map (\<lambda>k. (AfterLineFlush, 0, k - batchSize)) [batchSize..<Suc n]"
    and r: "settled st = None" "totalErrors st = 0" "totalProcessed st = 0" "ext st = ext init"
    by (simp_all add: chunk_state_def)
  from i have h: "headers st = Some example_headers" and b: "batch st = 0"
    and a: "arrays st = [replicate n example_record]"
    and c: "handed st = map (\<lambda>k. replicate k example_record) [batchSize..<Suc n]"
    by (simp_all add: chunk_inv_def)
  have i': "chunk_inv (Suc n) (on_line True example_row st)"
    by (rule chunk_inv_step [OF i])
  have l: "length (handed st) = Suc n - batchSize" using c by (simp del: upt_Suc)
  show ?thesis
  proof (cases "batchSize \<le> Suc n")
    case True
    then have "[batchSize..<Suc (Suc n)] = [batchSize..<Suc n] @ [Suc n]" by simp
    with True i' s r b a l show ?thesis
      by (simp add: line_example_row [OF h] Let_def push_def current_batch_def
          call_onBatch_def chunk_state_def del: replicate_Suc upt_Suc)
  next
    case False
    then have "[batchSize..<Suc (Suc n)] = []" "[batchSize..<Suc n] = []" by simp_all
    with False i' s r b a show ?thesis
      by (simp add: line_example_row [OF h] Let_def push_def current_batch_def
          chunk_state_def del: replicate_Suc upt_Suc)
  qed
qed

lemma chunk_state_rows:
  assumes "chunk_state 0 st"
  shows "chunk_state n (run (Some f) (map Line (replicate n example_row)) st)"
proof (induction n)
  case 0
  with assms show ?case by (simp add: run_Nil)
next
  case (Suc n)
  have "replicate (Suc n) example_row = replicate n example_row @ [example_row]"
    by (simp add: replicate_append_same)
  then have "run (Some f) (map Line (replicate (Suc n) example_row)) st =
      on_line True example_row (run (Some f) (map Line (replicate n example_row)) st)"
    by (simp add: run_append run_Cons run_Nil del: replicate_Suc)
  with chunk_state_step [OF Suc.IH] show ?case by simp
qed

lemma chunk_state_header: "chunk_state 0 (on_line True example_header init)"
proof -
  have "headers init = None" by (simp add: init_def)
  from line_example_header [OF this] chunk_inv_header [of True] show ?thesis
    by (simp add: chunk_state_def init_def batchSize_def)
qed

lemma chunk_state_file:
  "chunk_state n (process_csv env (map Line (example_header # replicate n example_row)))"
  unfolding process_csv_def using chunk_state_rows [OF chunk_state_header]
  by (simp add: run_Cons)

lemma run_idle: "suspended st = [] \<Longrightarrow> run (Some f) (replicate k Resume) st = st"
  by (induction k) (simp_all add: run_Nil run_Cons on_resume_def)

lemma same_chunk_split:
  "process_csv env (same_chunk ls) =
     run (Some (app_callback env)) (replicate (Suc (length ls)) Resume)
       (on_close True (process_csv env (map Line ls)))"
  by (simp add: process_csv_def same_chunk_def run_append run_Cons run_Nil del: replicate_Suc)

lemma same_chunk_1001:
  "respond (process_csv no_faults (same_chunk (example_header # replicate 1001 example_row))) =
     Some (Inr \<lparr>recordsProcessed = 3003, errors = 0\<rparr>) \<and>
   users (db (ext (process_csv no_faults (same_chunk (example_header # replicate 1001 example_row))))) =
     replicate 3003 example_users_row"
proof -
  define st where "st = process_csv no_faults (map Line (example_header # replicate 1001 example_row))"
  define R where "R = replicate 1001 example_record"
  have u: "[batchSize..<Suc 1001] = [1000, 1001]" by (simp add: batchSize_def upt_rec)
  from chunk_state_file [of 1001 no_faults]
  have cs: "batch st = 0" "arrays st = [R]" "handed st = [replicate 1000 example_record, R]"
    "suspended st = [(AfterLineFlush, 0, 0), (AfterLineFlush, 0, 1)]"
    "settled st = None" "totalErrors st = 0" "totalProcessed st = 0" "ext st = ext init"
    "headers st = Some example_headers"
    unfolding chunk_state_def chunk_inv_def st_def [symmetric] R_def u
    by (simp_all add: batchSize_def)
  have len: "length R = 1001" by (simp add: R_def)
  have e0: "ext init = \<lparr>app_totalProcessed = 0, app_totalErrors = 0, db = \<lparr>users = [], txn = None\<rparr>\<rparr>"
    by (simp add: init_def)
  have b1: "onBatch [] R (ext init) = \<lparr>app_totalProcessed = 1001, app_totalErrors = 0,
      db = \<lparr>users = replicate 1001 example_users_row, txn = None\<rparr>\<rparr>"
    unfolding R_def e0 by (subst onBatch_replicate_ok) simp_all
  have b2: "onBatch [] R (onBatch [] R (ext init)) = \<lparr>app_totalProcessed = 2002, app_totalErrors = 0,
      db = \<lparr>users = replicate 2002 example_users_row, txn = None\<rparr>\<rparr>"
    unfolding b1 unfolding R_def
    by (subst onBatch_replicate_ok) (simp_all add: replicate_add [symmetric])
  have b3: "onBatch [] R (onBatch [] R (onBatch [] R (ext init))) =
      \<lparr>app_totalProcessed = 3003, app_totalErrors = 0,
       db = \<lparr>users = replicate 3003 example_users_row, txn = None\<rparr>\<rparr>"
    unfolding b2 unfolding R_def
    by (subst onBatch_replicate_ok) (simp_all add: replicate_add [symmetric])
  define c where "c = on_close True st"
  have c: "suspended c = [(AfterLineFlush, 0, 0), (AfterLineFlush, 0, 1), (AfterCloseFlush, 0, 2)]"
    "arrays c = [R]" "batch c = 0" "ext c = ext init" "totalErrors c = 0"
    unfolding c_def using cs len
    by (simp_all add: on_close_def current_batch_def call_onBatch_def)
  define r1 where "r1 = on_resume (app_callback no_faults) c"
  have r1: "suspended r1 = [(AfterLineFlush, 0, 1), (AfterCloseFlush, 0, 2)]"
    "arrays r1 = [R, []]" "ext r1 = onBatch [] R (ext init)" "totalErrors r1 = 0"
    unfolding r1_def using c
    by (simp_all add: on_resume_def app_callback_def no_faults_def reset_batch_def
        add_processed_def Let_def)
  define r2 where "r2 = on_resume (app_callback no_faults) r1"
  have r2: "suspended r2 = [(AfterCloseFlush, 0, 2)]"
    "arrays r2 = [R, [], []]" "ext r2 = onBatch [] R (onBatch [] R (ext init))" "totalErrors r2 = 0"
    unfolding r2_def using r1
    by (simp_all add: on_resume_def app_callback_def no_faults_def reset_batch_def
        add_processed_def Let_def nth_append)
  define r3 where "r3 = on_resume (app_callback no_faults) r2"
  have r3: "suspended r3 = []" "ext r3 = onBatch [] R (onBatch [] R (onBatch [] R (ext init)))"
    "respond r3 = Some (Inr \<lparr>recordsProcessed = 3003, errors = 0\<rparr>)"
    unfolding r3_def using r2
    by (simp_all add: on_resume_def app_callback_def no_faults_def resolve_def
        add_processed_def Let_def respond_def b3)
  have n: "Suc (length (example_header # replicate 1001 example_row)) = 3 + 1000" by simp
  have three: "replicate 3 Resume = [Resume, Resume, Resume]" by (simp add: numeral_3_eq_3)
  have "replicate (Suc (length (example_header # replicate 1001 example_row))) Resume =
      [Resume, Resume, Resume] @ replicate 1000 Resume"
    unfolding n replicate_add three ..
  then have "process_csv no_faults (same_chunk (example_header # replicate 1001 example_row)) =
      run (Some (app_callback no_faults)) (replicate 1000 Resume) r3"
    unfolding same_chunk_split st_def [symmetric] c_def [symmetric]
    by (simp add: run_append run_Cons run_Nil r1_def r2_def r3_def del: replicate_Suc)
  also have "\<dots> = r3" using r3(1) by (rule run_idle)
  finally show ?thesis using r3 b3 by simp
qed

text \<open>
  C10. A header and 1001 rows that arrive in one chunk: the listener of row 1000 calls
  \<^verbatim>\<open>onBatch\<close> and is suspended before \<^verbatim>\<open>batch = []\<close>; row 1001 is pushed onto the same
  array and \<^verbatim>\<open>onBatch\<close> is called with it again, now 1001 records long. When the input
  is then closed and the three pending calls complete without a failing statement, each
  writes all 1001 records: 3003 rows are persisted and reported as processed.
\<close>

theorem same_chunk_batch_over_bound:
  "map length (handed (process_csv env (map Line (example_header # replicate 1001 example_row)))) =
     [1000, 1001] \<and>
   respond (process_csv no_faults (same_chunk (example_header # replicate 1001 example_row))) =
     Some (Inr \<lparr>recordsProcessed = 3003, errors = 0\<rparr>) \<and>
   users (db (ext (process_csv no_faults (same_chunk (example_header # replicate 1001 example_row))))) =
     replicate 3003 example_users_row"
proof -
  have "map length (handed (process_csv env (map Line (example_header # replicate 1001 example_row)))) =
      [1000, 1001]"
    unfolding same_chunk_handed by (simp add: batchSize_def upt_rec)
  with same_chunk_1001 show ?thesis by simp
qed

text \<open>
  C2. A header and 2500 rows that arrive in one chunk: \<^verbatim>\<open>onBatch\<close> is called once for
  every row from the 1000th on, 1501 times before the input is closed, with the one
  array at its lengths 1000 to 2500; not three times with 1000, 1000 and 500 records.
\<close>

theorem same_chunk_2500_calls:
  "map length (handed (process_csv env (map Line (example_header # replicate 2500 example_row)))) =
     [1000..<2501] \<and>
   length (handed (process_csv env (map Line (example_header # replicate 2500 example_row)))) = 1501"
proof -
  have s: "Suc 2500 = 2501" by simp
  have m: "map length (handed (process_csv env (map Line (example_header # replicate 2500 example_row)))) =
      [1000..<2501]"
    unfolding same_chunk_handed batchSize_def s ..
  have "length (map length (handed (process_csv env
      (map Line (example_header # replicate 2500 example_row))))) = 2501 - 1000"
    unfolding m by (rule length_upt)
  then have "length (handed (process_csv env
      (map Line (example_header # replicate 2500 example_row)))) = 1501"
    by simp
  with m show ?thesis by (rule conjI)
qed

text \<open>
  When every flush completes before the next event, every batch handed to the callback
  is non-empty and within the bound, whatever the lines of the file are and whatever
  statements fail.
\<close>

lemma idle_inv_frame:
  assumes "idle_inv st" "suspended st' = suspended st" "batch st' = batch st"
    "arrays st' = arrays st" "handed st' = handed st"
  shows "idle_inv st'"
  using assms by (simp add: idle_inv_def current_batch_def)

lemma resume_idle:
  "suspended st = [] \<Longrightarrow> on_resume f st = st"
  by (simp add: on_resume_def)

lemma idle_inv_line:
  assumes "idle_inv st"
  shows "idle_inv (on_resume (app_callback env) (on_line True l st))"
proof -
  from assms have s: "suspended st = []" and b: "batch st < length (arrays st)"
    and c: "length (arrays st ! batch st) < batchSize" and h: "list_all good_batch (handed st)"
    by (simp_all add: idle_inv_def current_batch_def)
  have skip: ?thesis
    if "suspended (on_line True l st) = suspended st" "batch (on_line True l st) = batch st"
      "arrays (on_line True l st) = arrays st" "handed (on_line True l st) = handed st"
  proof -
    from that(1) s have "on_resume (app_callback env) (on_line True l st) = on_line True l st"
      by (simp add: resume_idle)
    with idle_inv_frame [OF assms that] show ?thesis by simp
  qed
  show ?thesis
  proof (cases "headers st")
    case None
    show ?thesis
      by (rule skip) (simp_all add: on_line_def Let_def log_error_def None split: sum.split)
  next
    case (Some hs)
    show ?thesis
    proof (cases "trim l = []")
      case True
      show ?thesis
        by (rule skip) (simp_all add: on_line_def Let_def Some True)
    next
      case False
      show ?thesis
      proof (cases "convertRowToObject hs (parseCSVLine l)")
        case (Inl e)
        show ?thesis
          by (rule skip) (simp_all add: on_line_def Let_def log_error_def Some False Inl)
      next
        case (Inr obj)
        show ?thesis
        proof (cases "batchSize \<le> Suc (length (arrays st ! batch st))")
          case True
          with c have eq: "Suc (length (arrays st ! batch st)) = batchSize" by simp
          have g: "good_batch (arrays st ! batch st @ [obj])"
            using eq by (simp add: good_batch_def)
          from Some False Inr True s b h g show ?thesis
            by (simp add: on_line_def Let_def push_def current_batch_def call_onBatch_def
                on_resume_def app_callback_def reset_batch_def add_processed_def idle_inv_def
                nth_append batchSize_def)
        next
          case False': False
          from Some False Inr False' s b c h show ?thesis
            by (simp add: on_line_def Let_def push_def current_batch_def resume_idle idle_inv_def)
        qed
      qed
    qed
  qed
qed

lemma idle_inv_lines:
  assumes "idle_inv st"
  shows "idle_inv (run (Some (app_callback env)) (concat (map (\<lambda>l. [Line l, Resume]) ls)) st)"
  using assms
proof (induction ls arbitrary: st)
  case Nil
  then show ?case by (simp add: run_Nil)
next
  case (Cons l ls)
  from idle_inv_line [OF Cons.prems] have "idle_inv (on_resume (app_callback env) (on_line True l st))" .
  from Cons.IH [OF this] show ?case by (simp add: run_Cons)
qed

lemma idle_inv_close:
  assumes "idle_inv st"
  shows "list_all good_batch (handed (on_resume (app_callback env) (on_close True st)))"
proof -
  from assms have s: "suspended st = []" and b: "batch st < length (arrays st)"
    and c: "length (arrays st ! batch st) < batchSize" and h: "list_all good_batch (handed st)"
    by (simp_all add: idle_inv_def current_batch_def)
  show ?thesis
    using s b c h
    by (simp add: on_close_def on_resume_def current_batch_def call_onBatch_def app_callback_def
        resolve_def add_processed_def good_batch_def Let_def)
qed

lemma idle_inv_init: "idle_inv init"
  by (simp add: idle_inv_def init_def current_batch_def batchSize_def)

lemma serial_batches_bounded:
  "list_all good_batch (handed (process_csv env (serial ls)))"
proof -
  have "process_csv env (serial ls) =
      on_resume (app_callback env) (on_close True
        (run (Some (app_callback env)) (concat (map (\<lambda>l. [Line l, Resume]) ls)) init))"
    by (simp add: process_csv_def serial_def run_append run_Cons run_Nil)
  with idle_inv_close [OF idle_inv_lines [OF idle_inv_init]] show ?thesis by simp
qed

lemma serial_inv_step:
  assumes "serial_inv env n st"
  shows "serial_inv env (Suc n) (on_resume (app_callback env) (on_line True example_row st))"
proof -
  from assms have h: "headers st = Some example_headers" and s: "suspended st = []"
    and p: "settled st = None" and b: "batch st < length (arrays st)"
    and c: "arrays st ! batch st = replicate (n mod batchSize) example_record"
    and d: "handed st = replicate (n div batchSize) (replicate batchSize example_record)"
    and e: "totalErrors st = 0" "errorLog st = []"
    and x: "ext st = app_after env (n div batchSize)"
    by (simp_all add: serial_inv_def current_batch_def)
  have r: "replicate k example_record @ [example_record] = replicate (Suc k) example_record" for k
    by (simp add: replicate_append_same)
  have pos: "0 < batchSize" by (simp add: batchSize_def)
  show ?thesis
  proof (cases "Suc (n mod batchSize) = batchSize")
    case True
    then have m: "Suc n mod batchSize = 0" "Suc n div batchSize = Suc (n div batchSize)"
      by (simp_all add: mod_Suc div_Suc)
    have rr: "replicate (n div batchSize) (replicate batchSize example_record) @
        [replicate batchSize example_record] =
        replicate (Suc (n div batchSize)) (replicate batchSize example_record)"
      by (simp add: replicate_append_same)
    from True h s p b c d e x r [of "n mod batchSize"] rr show ?thesis
      unfolding serial_inv_def m
      by (simp add: line_example_row [OF h] Let_def push_def current_batch_def
          call_onBatch_def on_resume_def app_callback_def reset_batch_def add_processed_def
          nth_append del: replicate_Suc)
  next
    case False
    then have lt: "Suc (n mod batchSize) < batchSize"
      using pos mod_less_divisor [of batchSize n] by linarith
    from False have m: "Suc n mod batchSize = Suc (n mod batchSize)"
      "Suc n div batchSize = n div batchSize"
      by (simp_all add: mod_Suc div_Suc)
    from lt h s p b c d e x r [of "n mod batchSize"] show ?thesis
      unfolding serial_inv_def m
      by (simp add: line_example_row [OF h] Let_def push_def current_batch_def
          on_resume_def del: replicate_Suc)
  qed
qed

lemma serial_inv_rows:
  assumes "serial_inv env 0 st"
  shows "serial_inv env n
           (run (Some (app_callback env))
              (concat (map (\<lambda>l. [Line l, Resume]) (replicate n example_row))) st)"
proof (induction n)
  case 0
  with assms show ?case by (simp add: run_Nil)
next
  case (Suc n)
  have "replicate (Suc n) example_row = replicate n example_row @ [example_row]"
    by (simp add: replicate_append_same)
  then have "run (Some (app_callback env))
        (concat (map (\<lambda>l. [Line l, Resume]) (replicate (Suc n) example_row))) st =
      on_resume (app_callback env) (on_line True example_row
        (run (Some (app_callback env))
          (concat (map (\<lambda>l. [Line l, Resume]) (replicate n example_row))) st))"
    by (simp add: run_append run_Cons run_Nil del: replicate_Suc)
  with serial_inv_step [OF Suc.IH] show ?case by simp
qed

lemma serial_inv_header:
  "serial_inv env 0 (on_resume (app_callback env) (on_line True example_header init))"
proof -
  have "headers init = None" by (simp add: init_def)
  from line_example_header [OF this] show ?thesis
    by (simp add: serial_inv_def init_def batchSize_def on_resume_def current_batch_def)
qed

lemma serial_inv_file:
  "serial_inv env n
     (run (Some (app_callback env))
        (concat (map (\<lambda>l. [Line l, Resume]) (example_header # replicate n example_row))) init)"
  using serial_inv_rows [OF serial_inv_header] by (simp add: run_Cons)

lemma serial_inv_close:
  assumes "serial_inv env n st"
  shows "handed (on_resume (app_callback env) (on_close True st)) =
           replicate (n div batchSize) (replicate batchSize example_record) @
           (if 0 < n mod batchSize then [replicate (n mod batchSize) example_record] else [])"
    and "ext (on_resume (app_callback env) (on_close True st)) = final_app env n"
    and "respond (on_resume (app_callback env) (on_close True st)) =
           Some (Inr \<lparr>recordsProcessed = app_totalProcessed (final_app env n),
                      errors = app_totalErrors (final_app env n)\<rparr>)"
proof -
  from assms have h: "headers st = Some example_headers" and s: "suspended st = []"
    and p: "settled st = None" and b: "batch st < length (arrays st)"
    and c: "arrays st ! batch st = replicate (n mod batchSize) example_record"
    and d: "handed st = replicate (n div batchSize) (replicate batchSize example_record)"
    and e: "totalErrors st = 0" "errorLog st = []"
    and x: "ext st = app_after env (n div batchSize)"
    by (simp_all add: serial_inv_def current_batch_def)
  note defs = on_close_def current_batch_def call_onBatch_def on_resume_def app_callback_def
    resolve_def add_processed_def respond_def final_app_def Let_def
  show "handed (on_resume (app_callback env) (on_close True st)) =
           replicate (n div batchSize) (replicate batchSize example_record) @
           (if 0 < n mod batchSize then [replicate (n mod batchSize) example_record] else [])"
    using s c d by (simp add: defs)
  show "ext (on_resume (app_callback env) (on_close True st)) = final_app env n"
    using s c d x by (simp add: defs)
  show "respond (on_resume (app_callback env) (on_close True st)) =
           Some (Inr \<lparr>recordsProcessed = app_totalProcessed (final_app env n),
                      errors = app_totalErrors (final_app env n)\<rparr>)"
    using s c d x e by (simp add: defs)
qed

lemma serial_file:
  "process_csv env (serial (example_header # replicate n example_row)) =
     on_resume (app_callback env) (on_close True
       (run (Some (app_callback env))
          (concat (map (\<lambda>l. [Line l, Resume]) (example_header # replicate n example_row))) init))"
  by (simp add: process_csv_def serial_def run_append run_Cons run_Nil del: replicate_Suc)

lemma serial_batches:
  "map length (handed (process_csv env (serial (example_header # replicate n example_row)))) =
     replicate (n div batchSize) batchSize @ (if 0 < n mod batchSize then [n mod batchSize] else [])"
  unfolding serial_file serial_inv_close(1) [OF serial_inv_file] by simp

lemma serial_response:
  "respond (process_csv env (serial (example_header # replicate n example_row))) =
     Some (Inr \<lparr>recordsProcessed = app_totalProcessed (final_app env n),
                 errors = app_totalErrors (final_app env n)\<rparr>)"
  unfolding serial_file by (rule serial_inv_close(3) [OF serial_inv_file])

lemma serial_store:
  "ext (process_csv env (serial (example_header # replicate n example_row))) = final_app env n"
  unfolding serial_file by (rule serial_inv_close(2) [OF serial_inv_file])

lemma final_app_second_fails:
  "final_app second_fails 2500 =
     \<lparr>app_totalProcessed = 1500, app_totalErrors = 1000,
      db = \<lparr>users = replicate 1500 example_users_row, txn = None\<rparr>\<rparr>"
proof -
  have env: "second_fails 0 = []" "second_fails (Suc 0) = [Insert]" "second_fails (Suc (Suc 0)) = []"
    by (simp_all add: second_fails_def)
  have a0: "app_after second_fails 0 =
      \<lparr>app_totalProcessed = 0, app_totalErrors = 0, db = \<lparr>users = [], txn = None\<rparr>\<rparr>"
    by (simp add: init_def)
  have a1: "app_after second_fails (Suc 0) =
      \<lparr>app_totalProcessed = 1000, app_totalErrors = 0,
       db = \<lparr>users = replicate 1000 example_users_row, txn = None\<rparr>\<rparr>"
    unfolding app_after.simps(2) a0 env batchSize_def
    by (subst onBatch_replicate_ok) simp_all
  have a2: "app_after second_fails (Suc (Suc 0)) =
      \<lparr>app_totalProcessed = 1000, app_totalErrors = 1000,
       db = \<lparr>users = replicate 1000 example_users_row, txn = None\<rparr>\<rparr>"
    unfolding app_after.simps(2) [of _ "Suc 0"] a1 env batchSize_def
    by (subst onBatch_replicate_insert_fails) simp_all
  have r: "replicate 1000 example_users_row @ replicate 500 example_users_row =
      replicate 1500 example_users_row"
    by (simp add: replicate_add [symmetric])
  have dm: "(2500::nat) div 1000 = Suc (Suc 0)" "(2500::nat) mod 1000 = 500" by simp_all
  have "final_app second_fails 2500 =
      onBatch [] (replicate 500 example_record) (app_after second_fails (Suc (Suc 0)))"
    unfolding final_app_def batchSize_def dm env by simp
  also have "\<dots> = \<lparr>app_totalProcessed = 1500, app_totalErrors = 1000,
      db = \<lparr>users = replicate 1500 example_users_row, txn = None\<rparr>\<rparr>"
    unfolding a2 by (subst onBatch_replicate_ok) (simp_all add: r)
  finally show ?thesis .
qed

lemma serial_sizes_2500: "replicate ((2500::nat) div batchSize) batchSize @
      (if 0 < (2500::nat) mod batchSize then [2500 mod batchSize] else []) = [1000, 1000, 500]"
proof -
  have dm: "(2500::nat) div 1000 = Suc (Suc 0)" "(2500::nat) mod 1000 = 500" by simp_all
  show ?thesis
    unfolding batchSize_def dm by simp
qed

text \<open>
  In that order, a file of \<open>n\<close> example rows is flushed in full batches of the bound
  and one last batch of the rest; with 2500 rows and a failing second write, the batches
  are 1000, 1000 and 500, the response reports 1500 records processed and 1000 errors,
  and the table holds 1500 rows.
\<close>

theorem serial_2500_second_fails:
  "map length (handed (process_csv second_fails (serial (example_header # replicate 2500 example_row)))) =
     [1000, 1000, 500] \<and>
   respond (process_csv second_fails (serial (example_header # replicate 2500 example_row))) =
     Some (Inr \<lparr>recordsProcessed = 1500, errors = 1000\<rparr>) \<and>
   users (db (ext (process_csv second_fails (serial (example_header # replicate 2500 example_row))))) =
     replicate 1500 example_users_row"
proof (intro conjI)
  show "map length (handed (process_csv second_fails (serial (example_header # replicate 2500 example_row)))) =
     [1000, 1000, 500]"
    unfolding serial_batches by (rule serial_sizes_2500)
  show "respond (process_csv second_fails (serial (example_header # replicate 2500 example_row))) =
     Some (Inr \<lparr>recordsProcessed = 1500, errors = 1000\<rparr>)"
    unfolding serial_response final_app_second_fails by simp
  show "users (db (ext (process_csv second_fails (serial (example_header # replicate 2500 example_row))))) =
     replicate 1500 example_users_row"
    unfolding serial_store final_app_second_fails by simp
qed

section \<open>The batch write in a run\<close>











end
